theory Spec2Isabelle
  imports
    Complex_Main
    "HOL-Library.Char_ord"
    "HOL-Library.List_Lexorder"
    "HOL-Library.Product_Lexorder"
    "HOL-Library.AList"
    "HOL-Library.Multiset"
    "HOL-Library.Word"
begin

unbundle bit_operations_syntax

section \<open>sharenv: a shallow embedding of server.py\<close>

text \<open>
  The server publishes a directory of variable files and an aliases file as shell
  statements. Python \<open>str\<close> values are modelled as \<^typ>\<open>string\<close>; a \<^typ>\<open>char\<close>
  stands for one code point below 256. Everything the program reads from its
  surroundings (the file system, the clock, the random generator, the MD5 function)
  is an explicit argument of the function that reads it, and the module globals that
  hold the cache are a record that each function takes and returns. One call runs
  from start to end on one file system: the lock, the log and Flask's routing are not
  part of the model.
\<close>

subsection \<open>Characters and Python string primitives\<close>

abbreviation LF :: char where "LF \<equiv> CHR 0x0A"
abbreviation CR :: char where "CR \<equiv> CHR 0x0D"
abbreviation backslash :: char where "backslash \<equiv> CHR 0x5C"
abbreviation dquote :: char where "dquote \<equiv> CHR 0x22"
abbreviation squote :: char where "squote \<equiv> CHR 0x27"
abbreviation dollar :: char where "dollar \<equiv> CHR 0x24"
abbreviation equals :: char where "equals \<equiv> CHR 0x3D"
abbreviation dot :: char where "dot \<equiv> CHR 0x2E"
abbreviation slash :: char where "slash \<equiv> CHR 0x2F"

text \<open>
  \<open>str.isspace\<close> on one code point below 256: tab, line feed, vertical tab, form
  feed, carriage return, the four separators 0x1C..0x1F, space, NEL (0x85) and the
  no-break space (0xA0).
\<close>

definition py_isspace :: "char \<Rightarrow> bool" where
  "py_isspace c =
     (let n = (of_char c :: nat)
      in (9 \<le> n \<and> n \<le> 13) \<or> (28 \<le> n \<and> n \<le> 32) \<or> n = 133 \<or> n = 160)"

text \<open>\<open>s.strip()\<close>: leading and trailing whitespace removed.\<close>

definition lstrip :: "string \<Rightarrow> string" where
  "lstrip s = dropWhile py_isspace s"

definition rstrip :: "string \<Rightarrow> string" where
  "rstrip s = rev (dropWhile py_isspace (rev s))"

definition strip :: "string \<Rightarrow> string" where
  "strip s = rstrip (lstrip s)"

text \<open>\<open>s.startswith(p)\<close> and \<open>s.endswith(p)\<close>.\<close>

definition startswith :: "string \<Rightarrow> string \<Rightarrow> bool" where
  "startswith s p = (take (length p) s = p)"

definition endswith :: "string \<Rightarrow> string \<Rightarrow> bool" where
  "endswith s p = (length p \<le> length s \<and> drop (length s - length p) s = p)"

text \<open>
  \<open>s.replace(old, new)\<close>: every non-overlapping occurrence of \<open>old\<close>, found from
  left to right, is replaced. With an empty \<open>old\<close> Python puts \<open>new\<close> before every
  character and at the end.
\<close>

function replace :: "string \<Rightarrow> string \<Rightarrow> string \<Rightarrow> string" where
  "replace old new [] = (if old = [] then new else [])"
| "replace old new (c # cs) =
     (if old = [] then new @ c # replace old new cs
      else if startswith (c # cs) old
        then new @ replace old new (drop (length old) (c # cs))
        else c # replace old new cs)"
  by pat_completeness auto
termination
  by (relation "measure (\<lambda>(old, new, s). length s)") auto

text \<open>\<open>sep.join(xs)\<close>.\<close>

fun join :: "string \<Rightarrow> string list \<Rightarrow> string" where
  "join sep [] = []"
| "join sep [x] = x"
| "join sep (x # y # ys) = x @ sep @ join sep (y # ys)"

subsection \<open>Response serialisation (\<open>get_env_vars\<close>, lines 394-406)\<close>

text \<open>
  \<open>value.replace('\\', '\\\\').replace('"', '\\"').replace('$', '\\$')\<close>: three
  whole-string replacements, one after the other.
\<close>

definition escape_value :: "string \<Rightarrow> string" where
  "escape_value v =
     replace [dollar] [backslash, dollar]
       (replace [dquote] [backslash, dquote]
         (replace [backslash] [backslash, backslash] v))"

text \<open>\<open>f'export {var_name}="{escaped_value}"'\<close>.\<close>

definition export_command :: "string \<times> string \<Rightarrow> string" where
  "export_command kv =
     ''export '' @ fst kv @ [equals, dquote] @ escape_value (snd kv) @ [dquote]"

text \<open>
  The escaping as the specification words it: one pass from left to right over the
  original value, each character replaced on its own.
\<close>

definition escape_char :: "char \<Rightarrow> string" where
  "escape_char c =
     (if c = backslash then [backslash, backslash]
      else if c = dquote then [backslash, dquote]
      else if c = dollar then [backslash, dollar]
      else [c])"

definition escape_single_pass :: "string \<Rightarrow> string" where
  "escape_single_pass v = concat (map escape_char v)"

subsection \<open>Text files\<close>

text \<open>
  A file opened in text mode translates \<open>\r\n\<close> and a lone \<open>\r\<close> to \<open>\n\<close>;
  \<open>readlines\<close> then cuts the text after every \<open>\n\<close>, the terminator staying on
  its line, and a last line without terminator is kept.
\<close>

fun translate_newlines :: "string \<Rightarrow> string" where
  "translate_newlines [] = []"
| "translate_newlines [c] = (if c = CR then [LF] else [c])"
| "translate_newlines (c # d # cs) =
     (if c = CR
      then (if d = LF then LF # translate_newlines cs else LF # translate_newlines (d # cs))
      else c # translate_newlines (d # cs))"

fun readlines_from :: "string \<Rightarrow> string \<Rightarrow> string list" where
  "readlines_from cur [] = (if cur = [] then [] else [cur])"
| "readlines_from cur (c # cs) =
     (if c = LF then (cur @ [c]) # readlines_from [] cs else readlines_from (cur @ [c]) cs)"

definition readlines :: "string \<Rightarrow> string list" where
  "readlines text = readlines_from [] (translate_newlines text)"

text \<open>\<open>[line.strip() for line in f.readlines() if line.strip()]\<close>.\<close>

definition stripped_lines :: "string \<Rightarrow> string list" where
  "stripped_lines text = map strip (filter (\<lambda>line. strip line \<noteq> []) (readlines text))"

subsection \<open>The file system and the process state\<close>

text \<open>
  An entry of the variables directory is a subdirectory, a regular file that cannot be
  opened, or a regular file with its text. The variables path itself is missing, is
  something other than a directory, or is a directory with its entries in the order
  \<open>iterdir\<close> yields them (entry names are distinct).
\<close>

datatype node = Directory | Unreadable | RegFile string

datatype vars_node = Missing | NotADirectory | Dir "(string \<times> node) list"

record filesystem =
  vars_dir :: vars_node
  aliases_file :: "node option"

text \<open>The exceptions that leave a request handler.\<close>

datatype error = IndexError | NotADirectoryError

text \<open>
  The module globals \<open>_values_cache\<close>, \<open>_cache_timestamps\<close>, \<open>_file_hashes\<close>,
  \<open>_aliases_cache\<close> and \<open>_aliases_hash\<close>. A stored hash is a hex digest or Python's
  \<open>None\<close>. Times are the seconds \<open>time.time()\<close> returns, taken as real numbers.
\<close>

record cache =
  values_cache :: "string \<rightharpoonup> string list"
  cache_timestamps :: "string \<rightharpoonup> real"
  file_hashes :: "string \<rightharpoonup> string option"
  aliases_cache :: "string list option"
  aliases_hash :: "string option"

definition empty_cache :: cache where
  "empty_cache =
     \<lparr>values_cache = Map.empty, cache_timestamps = Map.empty, file_hashes = Map.empty,
      aliases_cache = None, aliases_hash = None\<rparr>"

definition CACHE_TTL :: real where
  "CACHE_TTL = 1"

subsection \<open>Reading variable files (\<open>get_file_hash\<close>, \<open>read_var_file\<close>)\<close>

text \<open>\<open>VARS_DIR / var_name\<close>, looked up in the file system.\<close>

definition var_path :: "filesystem \<Rightarrow> string \<Rightarrow> node option" where
  "var_path fs var_name =
     (case vars_dir fs of Dir entries \<Rightarrow> map_of entries var_name | _ \<Rightarrow> None)"

text \<open>
  \<open>get_file_hash\<close>: the MD5 hex digest of the contents, \<open>None\<close> when the file cannot
  be opened. The digest function is the parameter \<open>md5\<close>.
\<close>

definition get_file_hash :: "(string \<Rightarrow> string) \<Rightarrow> node option \<Rightarrow> string option" where
  "get_file_hash md5 filepath =
     (case filepath of Some (RegFile content) \<Rightarrow> Some (md5 content) | _ \<Rightarrow> None)"

definition read_var_file :: "filesystem \<Rightarrow> string \<Rightarrow> string list option" where
  "read_var_file fs var_name =
     (case var_path fs var_name of
        None \<Rightarrow> None
      | Some (RegFile content) \<Rightarrow>
          (let lines = stripped_lines content in if lines \<noteq> [] then Some lines else None)
      | Some _ \<Rightarrow> None)"

subsection \<open>Value selection and the cache (\<open>get_var_value\<close>)\<close>

text \<open>
  \<open>random.choice(seq)\<close> is \<open>seq[self._randbelow(len(seq))]\<close>. The draw \<open>k\<close> that
  \<open>_randbelow\<close> returns is an input; the library promises \<open>k < len(seq)\<close>.
\<close>

definition random_choice :: "nat \<Rightarrow> string list \<Rightarrow> error + string" where
  "random_choice k seq = (if k < length seq then Inr (seq ! k) else Inl IndexError)"

text \<open>Lines 138-144: the selection among the candidate values.\<close>

definition select_value :: "(nat \<Rightarrow> nat) \<Rightarrow> string list \<Rightarrow> error + string option" where
  "select_value randbelow values =
     (if length values > 1
      then (case random_choice (randbelow (length values)) values of
              Inl e \<Rightarrow> Inl e | Inr selected_value \<Rightarrow> Inr (Some selected_value))
      else (case values of [] \<Rightarrow> Inl IndexError | v # _ \<Rightarrow> Inr (Some v)))"

text \<open>The three assignments that store a fresh entry (lines 126-128 and 134-136).\<close>

definition store_entry :: "string \<Rightarrow> string list \<Rightarrow> string option \<Rightarrow> real \<Rightarrow> cache \<Rightarrow> cache" where
  "store_entry var_name values current_hash current_time st =
     st\<lparr>values_cache := (values_cache st)(var_name \<mapsto> values),
        file_hashes := (file_hashes st)(var_name \<mapsto> current_hash),
        cache_timestamps := (cache_timestamps st)(var_name \<mapsto> current_time)\<rparr>"

text \<open>
  \<open>get_var_value\<close>. The result is \<open>Inr None\<close> for Python's \<open>return None\<close>,
  \<open>Inr (Some v)\<close> for a value and \<open>Inl e\<close> for an exception; the cache after the call
  comes with it. \<open>current_time\<close> is the reading of \<open>time.time()\<close> in this call and
  \<open>randbelow\<close> the draw of the random generator in this call.
\<close>

definition get_var_value ::
  "(string \<Rightarrow> string) \<Rightarrow> (nat \<Rightarrow> nat) \<Rightarrow> real \<Rightarrow> filesystem \<Rightarrow> string \<Rightarrow> cache
     \<Rightarrow> (error + string option) \<times> cache" where
  "get_var_value md5 randbelow current_time fs var_name st =
     (let current_hash = get_file_hash md5 (var_path fs var_name) in
      case (values_cache st var_name, file_hashes st var_name) of
        (Some cached_values, Some stored_hash) \<Rightarrow>
          (let cache_time = (case cache_timestamps st var_name of Some t \<Rightarrow> t | None \<Rightarrow> 0) in
           if stored_hash = current_hash \<and> current_time - cache_time < CACHE_TTL
           then (select_value randbelow cached_values, st)
           else (case read_var_file fs var_name of
                   None \<Rightarrow> (Inr None, st)
                 | Some values \<Rightarrow>
                     (select_value randbelow values,
                      store_entry var_name values current_hash current_time st)))
      | _ \<Rightarrow>
          (case read_var_file fs var_name of
             None \<Rightarrow> (Inr None, st)
           | Some values \<Rightarrow>
               (select_value randbelow values,
                store_entry var_name values current_hash current_time st)))"

subsection \<open>Loading all variables (\<open>load_all_vars\<close>)\<close>

definition is_file :: "node \<Rightarrow> bool" where
  "is_file nd = (case nd of Directory \<Rightarrow> False | _ \<Rightarrow> True)"

text \<open>
  The loop over \<open>VARS_DIR.iterdir()\<close>. \<open>vars_dict\<close> is a Python dict, kept as an
  association list in insertion order. Each variable name is visited once in a run, so
  the clock reading and the random draw of the call made for a name are given by the
  functions \<open>clock\<close> and \<open>randbelow\<close> of that name.
\<close>

fun load_loop ::
  "(string \<Rightarrow> string) \<Rightarrow> (string \<Rightarrow> nat \<Rightarrow> nat) \<Rightarrow> (string \<Rightarrow> real) \<Rightarrow> filesystem
     \<Rightarrow> (string \<times> node) list \<Rightarrow> (string \<times> string) list \<Rightarrow> cache
     \<Rightarrow> (error + (string \<times> string) list) \<times> cache" where
  "load_loop md5 randbelow clock fs [] vars_dict st = (Inr vars_dict, st)"
| "load_loop md5 randbelow clock fs (entry # entries) vars_dict st =
     (if is_file (snd entry) \<and> \<not> startswith (fst entry) [dot]
      then (let var_name = fst entry in
            case get_var_value md5 (randbelow var_name) (clock var_name) fs var_name st of
              (Inl e, st') \<Rightarrow> (Inl e, st')
            | (Inr None, st') \<Rightarrow> load_loop md5 randbelow clock fs entries vars_dict st'
            | (Inr (Some v), st') \<Rightarrow>
                load_loop md5 randbelow clock fs entries (AList.update var_name v vars_dict) st')
      else load_loop md5 randbelow clock fs entries vars_dict st)"

definition load_all_vars ::
  "(string \<Rightarrow> string) \<Rightarrow> (string \<Rightarrow> nat \<Rightarrow> nat) \<Rightarrow> (string \<Rightarrow> real) \<Rightarrow> filesystem \<Rightarrow> cache
     \<Rightarrow> (error + (string \<times> string) list) \<times> filesystem \<times> cache" where
  "load_all_vars md5 randbelow clock fs st =
     (case vars_dir fs of
        Missing \<Rightarrow> (Inr [], fs\<lparr>vars_dir := Dir []\<rparr>, st)
      | NotADirectory \<Rightarrow> (Inl NotADirectoryError, fs, st)
      | Dir entries \<Rightarrow>
          (case load_loop md5 randbelow clock fs entries [] st of
             (r, st') \<Rightarrow> (r, fs, st')))"

subsection \<open>The alias formatter (\<open>load_aliases\<close>)\<close>

text \<open>\<open>line.split('=', 1)\<close> on a line that contains the separator.\<close>

definition split_first :: "char \<Rightarrow> string \<Rightarrow> string \<times> string" where
  "split_first sep s = (takeWhile (\<lambda>c. c \<noteq> sep) s, tl (dropWhile (\<lambda>c. c \<noteq> sep) s))"

text \<open>Lines 185-206: the body of the loop over the stripped lines.\<close>

definition format_alias_line :: "string \<Rightarrow> string" where
  "format_alias_line line =
     (if startswith line ''alias '' then line
      else if equals \<in> set line
      then (let parts = split_first equals line;
                alias_name = strip (fst parts);
                alias_value = strip (snd parts)
            in if (startswith alias_value [squote] \<and> endswith alias_value [squote])
                  \<or> (startswith alias_value [dquote] \<and> endswith alias_value [dquote])
               then ''alias '' @ alias_name @ [equals] @ alias_value
               else ''alias '' @ alias_name @ [equals, squote] @ alias_value @ [squote])
      else ''alias '' @ strip line)"

definition read_aliases :: "string option \<Rightarrow> node \<Rightarrow> cache \<Rightarrow> string list \<times> cache" where
  "read_aliases current_hash nd st =
     (case nd of
        RegFile content \<Rightarrow>
          (let aliases = map format_alias_line (stripped_lines content)
           in (aliases, st\<lparr>aliases_cache := Some aliases, aliases_hash := current_hash\<rparr>))
      | _ \<Rightarrow> ([], st))"

definition load_aliases :: "(string \<Rightarrow> string) \<Rightarrow> filesystem \<Rightarrow> cache \<Rightarrow> string list \<times> cache" where
  "load_aliases md5 fs st =
     (case aliases_file fs of
        None \<Rightarrow> ([], st)
      | Some nd \<Rightarrow>
          (let current_hash = get_file_hash md5 (Some nd) in
           case aliases_cache st of
             Some cached \<Rightarrow>
               if aliases_hash st = current_hash then (cached, st)
               else read_aliases current_hash nd st
           | None \<Rightarrow> read_aliases current_hash nd st))"

subsection \<open>The request handler (\<open>validate_token\<close>, \<open>get_env_vars\<close>)\<close>

definition validate_token :: "string \<Rightarrow> string \<Rightarrow> bool" where
  "validate_token secret_token token = (if token \<noteq> secret_token then False else True)"

record response =
  status :: nat
  mimetype :: string
  body :: string

definition warning_message :: string where
  "warning_message =
     ''echo '' @ [dquote] @
     ''Warning: Invalid sharenv key. Please check your SHARENV_ENDPOINT configuration.'' @
     [dquote]"

definition response_text :: "(string \<times> string) list \<Rightarrow> string list \<Rightarrow> string" where
  "response_text vars_dict aliases =
     (let export_commands = map export_command (sort vars_dict);
          all_commands = export_commands @ aliases
      in join [LF] all_commands)"

definition get_env_vars ::
  "(string \<Rightarrow> string) \<Rightarrow> string \<Rightarrow> (string \<Rightarrow> nat \<Rightarrow> nat) \<Rightarrow> (string \<Rightarrow> real) \<Rightarrow> string
     \<Rightarrow> filesystem \<Rightarrow> cache \<Rightarrow> (error + response) \<times> filesystem \<times> cache" where
  "get_env_vars md5 secret_token randbelow clock token fs st =
     (if \<not> validate_token secret_token token
      then (Inr \<lparr>status = 200, mimetype = ''text/plain'', body = warning_message\<rparr>, fs, st)
      else (case load_all_vars md5 randbelow clock fs st of
              (Inl e, fs1, st1) \<Rightarrow> (Inl e, fs1, st1)
            | (Inr vars_dict, fs1, st1) \<Rightarrow>
                (case load_aliases md5 fs1 st1 of
                   (aliases, st2) \<Rightarrow>
                     (Inr \<lparr>status = 200, mimetype = ''text/plain'',
                           body = response_text vars_dict aliases\<rparr>, fs1, st2))))"

subsection \<open>The file watcher (\<open>VarsFileHandler.on_modified\<close>)\<close>

text \<open>
  \<open>Path.name\<close> is the last component of a path and \<open>Path.stem\<close> that component
  without its suffix: with \<open>i\<close> the index of the last dot of the name, the stem is
  \<open>name[:i]\<close> when \<open>0 < i < len(name) - 1\<close> and the whole name otherwise.
\<close>

definition path_name :: "string \<Rightarrow> string" where
  "path_name p = rev (takeWhile (\<lambda>c. c \<noteq> slash) (rev p))"

definition rfind :: "string \<Rightarrow> char \<Rightarrow> nat option" where
  "rfind s c =
     (if c \<in> set s then Some (length s - 1 - length (takeWhile (\<lambda>d. d \<noteq> c) (rev s)))
      else None)"

definition path_stem :: "string \<Rightarrow> string" where
  "path_stem p =
     (let name = path_name p in
      case rfind name dot of
        None \<Rightarrow> name
      | Some i \<Rightarrow> if 0 < i \<and> i < length name - 1 then take i name else name)"

text \<open>
  An event carries \<open>is_directory\<close> and \<open>src_path\<close>; \<open>src_path\<close> is taken as already
  resolved, and \<open>vars_dir_path\<close> and \<open>aliases_file_path\<close> are the resolved paths of
  \<open>VARS_DIR\<close> and \<open>ALIASES_FILE\<close>.
\<close>

record event =
  is_directory :: bool
  src_path :: string

definition on_modified :: "string \<Rightarrow> string \<Rightarrow> event \<Rightarrow> cache \<Rightarrow> cache" where
  "on_modified vars_dir_path aliases_file_path ev st =
     (if \<not> is_directory ev
      then (let event_path = src_path ev in
            if startswith event_path vars_dir_path
            then (let var_name = path_stem event_path
                  in st\<lparr>values_cache := (values_cache st)(var_name := None),
                        file_hashes := (file_hashes st)(var_name := None)\<rparr>)
            else if event_path = aliases_file_path
            then st\<lparr>aliases_cache := None, aliases_hash := None\<rparr>
            else st)
      else st)"

subsection \<open>The alias formatter as the specification words it\<close>

text \<open>
  A value is wrapped in a single matching pair of quotes when it has at least two
  characters, the first and the last are the same, and that character is a single or a
  double quote.
\<close>

definition wrapped_in_quotes :: "string \<Rightarrow> bool" where
  "wrapped_in_quotes v =
     (2 \<le> length v \<and> hd v = last v \<and> (hd v = squote \<or> hd v = dquote))"

text \<open>
  The specification's rule for a line that is not yet an alias statement: the text
  before the first \<open>=\<close> is the name and the text after it the value, as they stand.
\<close>

definition spec_alias_line :: "string \<Rightarrow> string" where
  "spec_alias_line line =
     (if equals \<in> set line
      then (let name = takeWhile (\<lambda>c. c \<noteq> equals) line;
                val = tl (dropWhile (\<lambda>c. c \<noteq> equals) line)
            in ''alias '' @ name @ [equals] @
               (if wrapped_in_quotes val then val else [squote] @ val @ [squote]))
      else ''alias '' @ line)"

text \<open>The same rule with the name and the value each trimmed of whitespace.\<close>

definition alias_value :: "string \<Rightarrow> string" where
  "alias_value line = strip (tl (dropWhile (\<lambda>c. c \<noteq> equals) line))"

definition trimmed_alias_line :: "string \<Rightarrow> string" where
  "trimmed_alias_line line =
     (if equals \<in> set line
      then (let name = strip (takeWhile (\<lambda>c. c \<noteq> equals) line);
                val = alias_value line
            in ''alias '' @ name @ [equals] @
               (if wrapped_in_quotes val then val else [squote] @ val @ [squote]))
      else ''alias '' @ line)"

subsection \<open>Auxiliary notions and example inputs\<close>

text \<open>
  The entries \<open>load_all_vars\<close> looks at: regular files whose name does not start with
  a dot.
\<close>

definition considered :: "string \<times> node \<Rightarrow> bool" where
  "considered entry = (is_file (snd entry) \<and> \<not> startswith (fst entry) [dot])"

text \<open>
  The end-to-end example of the specification: \<open>FOO\<close> holds the line \<open>one\<close>, \<open>BAR\<close>
  the lines \<open>x\<close> and \<open>y\<close>, and the aliases file the line \<open>ll=ls -la\<close>.
\<close>

definition example_fs :: filesystem where
  "example_fs =
     \<lparr>vars_dir = Dir [(''FOO'', RegFile (''one'' @ [LF])),
                      (''BAR'', RegFile (''x'' @ [LF] @ ''y'' @ [LF]))],
      aliases_file = Some (RegFile (''ll=ls -la'' @ [LF]))\<rparr>"



text \<open>A variables directory whose only file has a suffix.\<close>

definition dotted_fs :: filesystem where
  "dotted_fs = \<lparr>vars_dir = Dir [(''foo.txt'', RegFile (''v'' @ [LF]))], aliases_file = None\<rparr>"

subsection \<open>The cache rule as the specification words it\<close>

text \<open>
  A cached entry is valid when a value list, a stored hash and a capture timestamp
  exist for the name, the stored hash equals the hash of the live file, and the age
  (current time minus capture timestamp) is below the TTL of 1.
\<close>

definition entry_valid ::
  "(string \<Rightarrow> string) \<Rightarrow> real \<Rightarrow> filesystem \<Rightarrow> string \<Rightarrow> cache \<Rightarrow> bool" where
  "entry_valid md5 current_time fs var_name st =
     (case (values_cache st var_name, file_hashes st var_name, cache_timestamps st var_name) of
        (Some cached, Some stored_hash, Some captured) \<Rightarrow>
          stored_hash = get_file_hash md5 (var_path fs var_name) \<and> current_time - captured < 1
      | _ \<Rightarrow> False)"

definition cached_values :: "cache \<Rightarrow> string \<Rightarrow> string list" where
  "cached_values st var_name = (case values_cache st var_name of Some vs \<Rightarrow> vs | None \<Rightarrow> [])"

text \<open>
  Two properties of the caches the program builds. Every cached value list has a
  capture timestamp (the three dicts are written together and timestamps are never
  deleted). A cached value list whose stored hash is the hash of the live file is the
  list parsed from that file.
\<close>

definition timestamped :: "cache \<Rightarrow> string \<Rightarrow> bool" where
  "timestamped st var_name =
     (values_cache st var_name \<noteq> None \<longrightarrow> cache_timestamps st var_name \<noteq> None)"

definition cache_coherent :: "(string \<Rightarrow> string) \<Rightarrow> filesystem \<Rightarrow> string \<Rightarrow> cache \<Rightarrow> bool" where
  "cache_coherent md5 fs var_name st =
     (values_cache st var_name \<noteq> None
      \<and> file_hashes st var_name = Some (get_file_hash md5 (var_path fs var_name))
      \<longrightarrow> values_cache st var_name = read_var_file fs var_name)"

text \<open>
  Every cached value list was parsed from some text, and the stored hash is the digest
  of that text.
\<close>

definition cache_sound :: "(string \<Rightarrow> string) \<Rightarrow> cache \<Rightarrow> bool" where
  "cache_sound md5 st =
     (\<forall>name cached h.
        values_cache st name = Some cached \<and> file_hashes st name = Some h \<longrightarrow>
        (\<exists>content. h = Some (md5 content) \<and> cached = stripped_lines content \<and> cached \<noteq> []))"

text \<open>
  The cache after one load of the example directory at time 5, and the example
  directory after the file \<open>FOO\<close> has been deleted.
\<close>

definition example_cache :: cache where
  "example_cache =
     snd (snd (load_all_vars (\<lambda>s. s) (\<lambda>_ _. 0) (\<lambda>_. 5) example_fs empty_cache))"

definition deleted_fs :: filesystem where
  "deleted_fs = example_fs\<lparr>vars_dir := Dir [(''BAR'', RegFile (''x'' @ [LF] @ ''y'' @ [LF]))]\<rparr>"

text \<open>A variable file with one padded line, a Windows line ending and a blank line.\<close>

definition padded_fs :: filesystem where
  "padded_fs =
     \<lparr>vars_dir = Dir [(''GREETING'', RegFile (''  hello world '' @ [CR, LF] @ ''   '' @ [LF]))],
      aliases_file = None\<rparr>"

subsection \<open>The MD5 digest of the standard library\<close>

text \<open>
  \<open>hashlib.md5(data).hexdigest()\<close> as RFC 1321 defines it, on 32-bit words: the
  message is padded to a multiple of 64 bytes, each block of sixteen little-endian
  words goes through 64 rounds, and the four state words are printed as lower-case
  hex. The bytes of a file are the UTF-8 encoding of its text. A round reads the
  tables at an index below 64 and the block at an index below 16, and a block always
  has sixteen words, so every list access is in range. The functions of the program
  take the digest function as a parameter; this is the one the program gives them.
\<close>

type_synonym u32 = "32 word"

definition md5_shifts :: "nat list" where
  "md5_shifts =
     [
      7, 12, 17, 22, 7, 12, 17, 22, 7, 12, 17, 22, 7, 12, 17, 22,
      5, 9, 14, 20, 5, 9, 14, 20, 5, 9, 14, 20, 5, 9, 14, 20,
      4, 11, 16, 23, 4, 11, 16, 23, 4, 11, 16, 23, 4, 11, 16, 23,
      6, 10, 15, 21, 6, 10, 15, 21, 6, 10, 15, 21, 6, 10, 15, 21]"

definition md5_consts :: "u32 list" where
  "md5_consts =
     [
      0xd76aa478, 0xe8c7b756, 0x242070db, 0xc1bdceee,
      0xf57c0faf, 0x4787c62a, 0xa8304613, 0xfd469501,
      0x698098d8, 0x8b44f7af, 0xffff5bb1, 0x895cd7be,
      0x6b901122, 0xfd987193, 0xa679438e, 0x49b40821,
      0xf61e2562, 0xc040b340, 0x265e5a51, 0xe9b6c7aa,
      0xd62f105d, 0x02441453, 0xd8a1e681, 0xe7d3fbc8,
      0x21e1cde6, 0xc33707d6, 0xf4d50d87, 0x455a14ed,
      0xa9e3e905, 0xfcefa3f8, 0x676f02d9, 0x8d2a4c8a,
      0xfffa3942, 0x8771f681, 0x6d9d6122, 0xfde5380c,
      0xa4beea44, 0x4bdecfa9, 0xf6bb4b60, 0xbebfbc70,
      0x289b7ec6, 0xeaa127fa, 0xd4ef3085, 0x04881d05,
      0xd9d4d039, 0xe6db99e5, 0x1fa27cf8, 0xc4ac5665,
      0xf4292244, 0x432aff97, 0xab9423a7, 0xfc93a039,
      0x655b59c3, 0x8f0ccc92, 0xffeff47d, 0x85845dd1,
      0x6fa87e4f, 0xfe2ce6e0, 0xa3014314, 0x4e0811a1,
      0xf7537e82, 0xbd3af235, 0x2ad7d2bb, 0xeb86d391]"

definition md5_round :: "u32 list \<Rightarrow> nat \<Rightarrow> u32 \<times> u32 \<times> u32 \<times> u32 \<Rightarrow> u32 \<times> u32 \<times> u32 \<times> u32" where
  "md5_round M i st =
     (case st of (a, b, c, d) \<Rightarrow>
        (let f = (if i < 16 then (b AND c) OR (NOT b AND d)
                  else if i < 32 then (d AND b) OR (NOT d AND c)
                  else if i < 48 then b XOR c XOR d
                  else c XOR (b OR NOT d));
             g = (if i < 16 then i
                  else if i < 32 then (5 * i + 1) mod 16
                  else if i < 48 then (3 * i + 5) mod 16
                  else (7 * i) mod 16);
             x = f + a + md5_consts ! i + M ! g
         in (d, b + word_rotl (md5_shifts ! i) x, b, c)))"

definition md5_block :: "u32 \<times> u32 \<times> u32 \<times> u32 \<Rightarrow> u32 list \<Rightarrow> u32 \<times> u32 \<times> u32 \<times> u32" where
  "md5_block st M =
     (case st of (a0, b0, c0, d0) \<Rightarrow>
        (case fold (md5_round M) [0..<64] st of
           (a, b, c, d) \<Rightarrow> (a0 + a, b0 + b, c0 + c, d0 + d)))"

definition le_bytes :: "nat \<Rightarrow> int \<Rightarrow> int list" where
  "le_bytes k n = map (\<lambda>i. (n div 256 ^ i) mod 256) [0..<k]"

definition md5_pad :: "int list \<Rightarrow> int list" where
  "md5_pad bs =
     bs @ [128] @ replicate ((119 - length bs mod 64) mod 64) 0
        @ le_bytes 8 ((8 * int (length bs)) mod 2 ^ 64)"

fun le_words :: "int list \<Rightarrow> u32 list" where
  "le_words (b0 # b1 # b2 # b3 # bs) =
     word_of_int (b0 + 256 * b1 + 65536 * b2 + 16777216 * b3) # le_words bs"
| "le_words _ = []"

function md5_blocks :: "u32 \<times> u32 \<times> u32 \<times> u32 \<Rightarrow> u32 list \<Rightarrow> u32 \<times> u32 \<times> u32 \<times> u32" where
  "md5_blocks st ws =
     (if length ws < 16 then st else md5_blocks (md5_block st (take 16 ws)) (drop 16 ws))"
  by pat_completeness auto
termination
  by (relation "measure (\<lambda>(st, ws). length ws)") auto

definition hex_digit :: "int \<Rightarrow> char" where
  "hex_digit n = (if n < 10 then char_of (48 + n) else char_of (87 + n))"

definition hex_byte :: "int \<Rightarrow> string" where
  "hex_byte b = [hex_digit (b div 16), hex_digit (b mod 16)]"

definition utf8_encode :: "string \<Rightarrow> int list" where
  "utf8_encode s =
     concat (map (\<lambda>c. let n = of_char c in
                        if n < 128 then [n] else [192 + n div 64, 128 + n mod 64]) s)"

definition md5_hexdigest :: "string \<Rightarrow> string" where
  "md5_hexdigest text =
     (case md5_blocks (0x67452301, 0xefcdab89, 0x98badcfe, 0x10325476)
             (le_words (md5_pad (utf8_encode text))) of
        (a, b, c, d) \<Rightarrow>
          concat (map hex_byte (concat (map (\<lambda>w. le_bytes 4 (uint w)) [a, b, c, d]))))"

text \<open>
  Two texts of 72 letters and digits that differ in one letter (\<open>A\<close> and \<open>E\<close> at
  position 21) and have the same MD5 digest, a variables directory whose file \<open>FOO\<close>
  holds a given text, and the cache after one load at time 5 of the directory in which
  \<open>FOO\<close> holds the first text.
\<close>

definition collision_a :: string where
  "collision_a = ''TEXTCOLLBYfGiJUETHQ4hAcKSMd5zYpgqf1YRDhkmxHkhPWptrkoyz28wnI9V0aHeAuaKnak''"

definition collision_b :: string where
  "collision_b = ''TEXTCOLLBYfGiJUETHQ4hEcKSMd5zYpgqf1YRDhkmxHkhPWptrkoyz28wnI9V0aHeAuaKnak''"

definition collision_fs :: "string \<Rightarrow> filesystem" where
  "collision_fs content = \<lparr>vars_dir = Dir [(''FOO'', RegFile content)], aliases_file = None\<rparr>"

definition collision_cache :: cache where
  "collision_cache =
     snd (snd (load_all_vars md5_hexdigest (\<lambda>_ _. 0) (\<lambda>_. 5) (collision_fs collision_a) empty_cache))"

subsection \<open>Candidate lists and the probability of a draw\<close>

text \<open>
  The candidate list a call of \<open>get_var_value\<close> works with: the cached list when the
  entry is valid, the list read from the file otherwise.
\<close>

definition candidates ::
  "(string \<Rightarrow> string) \<Rightarrow> real \<Rightarrow> filesystem \<Rightarrow> string \<Rightarrow> cache \<Rightarrow> string list option" where
  "candidates md5 current_time fs var_name st =
     (if entry_valid md5 current_time fs var_name st then values_cache st var_name
      else read_var_file fs var_name)"

text \<open>
  \<open>random.choice\<close> draws its index with \<open>_randbelow(n)\<close>, which the library
  specifies as uniform on \<open>0, ..., n - 1\<close>, successive draws being independent.
  \<open>uniform_prob n E\<close> is the probability of the event \<open>E\<close> of one such draw, and
  \<open>uniform_prob2 n m E\<close> the probability of the event \<open>E\<close> of two successive draws,
  the first below \<open>n\<close> and the second below \<open>m\<close>.
\<close>

definition uniform_prob :: "nat \<Rightarrow> (nat \<Rightarrow> bool) \<Rightarrow> real" where
  "uniform_prob n E = real (length (filter E [0..<n])) / real n"

definition uniform_prob2 :: "nat \<Rightarrow> nat \<Rightarrow> (nat \<Rightarrow> nat \<Rightarrow> bool) \<Rightarrow> real" where
  "uniform_prob2 n m E =
     real (length (filter (\<lambda>p. E (fst p) (snd p)) (List.product [0..<n] [0..<m]))) / real (n * m)"

section \<open>Properties\<close>

subsection \<open>Replacement of a single character\<close>

lemma replace_single:
  "replace [a] new s = concat (map (\<lambda>c. if c = a then new else [c]) s)"
  by (induction s) (simp_all add: startswith_def)

lemma concat_map_concat_map:
  "concat (map f (concat (map g s))) = concat (map (\<lambda>c. concat (map f (g c))) s)"
  by (induction s) simp_all

text \<open>
  C1. For every value, the three sequential whole-string replacements (backslash,
  then double quote, then dollar sign) give the same string as a single left-to-right
  pass over the original value that escapes each character once; a backslash put in
  by an earlier replacement is never escaped again. The value \<open>a"b\c$d\<close> is
  serialised as the line \<open>export V="a\"b\\c\$d"\<close>.
\<close>

theorem escape_value_single_pass:
  "escape_value v = escape_single_pass v
   \<and> export_command (''V'', [CHR ''a'', dquote, CHR ''b'', backslash, CHR ''c'', dollar, CHR ''d''])
       = ''export V='' @ [dquote] @
         [CHR ''a'', backslash, dquote, CHR ''b'', backslash, backslash, CHR ''c'',
          backslash, dollar, CHR ''d''] @ [dquote]"
proof
  have "escape_value v = concat (map (\<lambda>c. concat (map (\<lambda>c. if c = dollar then [backslash, dollar] else [c])
            (concat (map (\<lambda>c. if c = dquote then [backslash, dquote] else [c])
              (if c = backslash then [backslash, backslash] else [c]))))) v)"
    by (simp add: escape_value_def replace_single concat_map_concat_map)
  also have "\<dots> = concat (map escape_char v)"
    by (rule arg_cong [where f = concat], rule map_cong) (simp_all add: escape_char_def)
  finally show "escape_value v = escape_single_pass v"
    by (simp add: escape_single_pass_def)
next
  show "export_command (''V'', [CHR ''a'', dquote, CHR ''b'', backslash, CHR ''c'', dollar, CHR ''d''])
       = ''export V='' @ [dquote] @
         [CHR ''a'', backslash, dquote, CHR ''b'', backslash, backslash, CHR ''c'',
          backslash, dollar, CHR ''d''] @ [dquote]"
    by (simp add: export_command_def escape_value_def startswith_def)
qed

subsection \<open>The alias formatter\<close>

lemma startswith_append_self: "startswith (p @ s) p"
  by (simp add: startswith_def)

lemma startswith_Cons: "startswith s (c # p) \<Longrightarrow> s \<noteq> [] \<and> hd s = c"
  by (cases s) (auto simp: startswith_def)

lemma startswith_single: "startswith s [q] \<longleftrightarrow> s \<noteq> [] \<and> hd s = q"
  by (cases s) (auto simp: startswith_def)

lemma endswith_single: "endswith s [q] \<longleftrightarrow> s \<noteq> [] \<and> last s = q"
proof (cases s rule: rev_cases)
  case Nil
  then show ?thesis by (simp add: endswith_def)
next
  case (snoc ys y)
  then show ?thesis by (auto simp: endswith_def)
qed

lemma format_alias_line_startswith: "startswith (format_alias_line line) ''alias ''"
  unfolding format_alias_line_def Let_def
  using startswith_append_self [of "''alias ''"]
  by (auto simp del: append.simps simp add: append_assoc)

lemma strip_fixedI:
  assumes "s \<noteq> []" and a: "\<not> py_isspace (hd s)" and b: "\<not> py_isspace (last s)"
  shows "strip s = s"
proof -
  from a assms(1) have "lstrip s = s" by (cases s) (simp_all add: lstrip_def)
  moreover from b assms(1) have "rstrip s = s"
    by (cases s rule: rev_cases) (simp_all add: rstrip_def)
  ultimately show "strip s = s" by (simp add: strip_def)
qed

lemma last_strip:
  assumes "strip s \<noteq> []"
  shows "\<not> py_isspace (last (strip s))"
proof -
  let ?zs = "dropWhile py_isspace (rev (lstrip s))"
  from assms have ne: "?zs \<noteq> []" by (simp add: strip_def rstrip_def)
  then have "\<not> py_isspace (hd ?zs)" by (simp add: hd_dropWhile)
  moreover have "last (rev ?zs) = hd ?zs" using ne by (simp add: last_rev)
  ultimately show ?thesis by (simp add: strip_def rstrip_def)
qed

text \<open>
  Apart from a value that is one lone quote character, the source's test "starts with
  a quote and ends with the same quote" is the test for a wrapping pair.
\<close>

lemma quoted_check:
  assumes "v \<noteq> [squote]" "v \<noteq> [dquote]"
  shows "((startswith v [squote] \<and> endswith v [squote])
           \<or> (startswith v [dquote] \<and> endswith v [dquote]))
         \<longleftrightarrow> wrapped_in_quotes v"
proof -
  have len: "2 \<le> length v"
    if "v \<noteq> []" "hd v = q" "last v = q" "q = squote \<or> q = dquote" for q
  proof (cases v)
    case Nil
    with that show ?thesis by simp
  next
    case (Cons a w)
    with that assms have "w \<noteq> []" by auto
    with Cons show ?thesis by (cases w) simp_all
  qed
  show ?thesis
    unfolding startswith_single endswith_single wrapped_in_quotes_def
    using len by (cases "v = []") auto
qed

text \<open>
  C3, as stated, does not hold: the source trims the name and the value around the
  first \<open>=\<close>, so \<open>A = b\<close> becomes \<open>alias A='b'\<close> and not \<open>alias A =' b'\<close>; and a
  value that is one lone quote character passes the source's quoting test, so \<open>X='\<close>
  becomes \<open>alias X='\<close> although no pair of quotes wraps the value.
\<close>

theorem format_alias_line_not_as_stated:
  "''A = b'' \<noteq> [] \<and> strip ''A = b'' = ''A = b'' \<and> \<not> startswith ''A = b'' ''alias ''
   \<and> format_alias_line ''A = b'' \<noteq> spec_alias_line ''A = b''
   \<and> strip (''X='' @ [squote]) = ''X='' @ [squote]
   \<and> \<not> startswith (''X='' @ [squote]) ''alias ''
   \<and> format_alias_line (''X='' @ [squote]) \<noteq> spec_alias_line (''X='' @ [squote])"
  by (simp add: format_alias_line_def spec_alias_line_def split_first_def
        wrapped_in_quotes_def strip_def lstrip_def rstrip_def py_isspace_def
        startswith_def endswith_def)

text \<open>
  C3, amended. For every non-empty trimmed line that does not start with \<open>alias \<close>
  and whose trimmed value is not one lone quote character: if the line contains \<open>=\<close>,
  it is split at the first \<open>=\<close> into name and value, each trimmed of surrounding
  whitespace; a value wrapped in a matching pair of single or double quotes is kept,
  any other value is wrapped in single quotes, and the result is \<open>alias NAME=<value>\<close>;
  a line without \<open>=\<close> gives \<open>alias NAME\<close> with the whole line as the name.
\<close>

theorem format_alias_line_trimmed_parts:
  assumes "line \<noteq> []" and "strip line = line" and "\<not> startswith line ''alias ''"
    and "alias_value line \<noteq> [squote]" and "alias_value line \<noteq> [dquote]"
  shows "format_alias_line line = trimmed_alias_line line"
  using assms quoted_check [of "alias_value line"]
  by (simp add: format_alias_line_def trimmed_alias_line_def split_first_def Let_def
        alias_value_def)

text \<open>
  The three examples of the specification: \<open>FOO=bar\<close>, \<open>FOO="bar"\<close> and
  \<open>justname\<close>.
\<close>

theorem format_alias_line_examples:
  "''FOO=bar'' \<noteq> [] \<and> strip ''FOO=bar'' = ''FOO=bar'' \<and> \<not> startswith ''FOO=bar'' ''alias ''
   \<and> alias_value ''FOO=bar'' \<noteq> [squote] \<and> alias_value ''FOO=bar'' \<noteq> [dquote]
   \<and> format_alias_line ''FOO=bar'' = ''alias FOO='' @ [squote] @ ''bar'' @ [squote]
   \<and> format_alias_line (''FOO='' @ [dquote] @ ''bar'' @ [dquote])
       = ''alias FOO='' @ [dquote] @ ''bar'' @ [dquote]
   \<and> format_alias_line ''justname'' = ''alias justname''"
  using format_alias_line_trimmed_parts [of "''FOO=bar''"]
    format_alias_line_trimmed_parts [of "''FOO='' @ [dquote] @ ''bar'' @ [dquote]"]
    format_alias_line_trimmed_parts [of "''justname''"]
  by (simp add: trimmed_alias_line_def alias_value_def wrapped_in_quotes_def strip_def
        lstrip_def rstrip_def py_isspace_def startswith_def)

text \<open>
  C4. The transformation of one line is idempotent: applied to its own output it
  returns that output unchanged. A line that already starts with \<open>alias \<close> passes
  through as it is, and the output for a non-empty trimmed line is again a non-empty
  trimmed line, so reading the output back as an aliases file changes nothing either.
\<close>

theorem format_alias_line_idempotent:
  "format_alias_line (format_alias_line line) = format_alias_line line
   \<and> (startswith line ''alias '' \<longrightarrow> format_alias_line line = line)
   \<and> (line \<noteq> [] \<and> strip line = line \<longrightarrow>
        format_alias_line line \<noteq> []
        \<and> strip (format_alias_line line) = format_alias_line line)"
proof (intro conjI impI)
  have pass: "format_alias_line l = l" if "startswith l ''alias ''" for l
    using that by (simp add: format_alias_line_def)
  show "format_alias_line (format_alias_line line) = format_alias_line line"
    by (rule pass) (rule format_alias_line_startswith)
  show "format_alias_line line = line" if "startswith line ''alias ''"
    using that by (rule pass)
  assume t: "line \<noteq> [] \<and> strip line = line"
  have ne: "format_alias_line line \<noteq> []"
    using format_alias_line_startswith [of line] by (auto simp: startswith_def)
  show "format_alias_line line \<noteq> []" by (rule ne)
  have hd: "\<not> py_isspace (hd (format_alias_line line))"
    using format_alias_line_startswith [of line]
      startswith_Cons [of "format_alias_line line" "CHR ''a''" "''lias ''"]
    by (simp add: py_isspace_def)
  have nsq: "\<not> py_isspace squote" and ndq: "\<not> py_isspace dquote"
    by (simp_all add: py_isspace_def)
  from t have lastl: "\<not> py_isspace (last line)" using last_strip [of line] by simp
  have "\<not> py_isspace (last (format_alias_line line))"
    using t lastl nsq ndq
    by (auto simp: format_alias_line_def Let_def endswith_single startswith_single)
  with ne hd show "strip (format_alias_line line) = format_alias_line line"
    by (rule strip_fixedI)
qed

theorem format_alias_line_idempotent_witness:
  "startswith (''alias X='' @ [squote] @ ''y'' @ [squote]) ''alias ''
   \<and> strip (''alias X='' @ [squote] @ ''y'' @ [squote]) = ''alias X='' @ [squote] @ ''y'' @ [squote]
   \<and> format_alias_line (''alias X='' @ [squote] @ ''y'' @ [squote])
       = ''alias X='' @ [squote] @ ''y'' @ [squote]
   \<and> format_alias_line (format_alias_line ''ll=ls -la'') = format_alias_line ''ll=ls -la''
   \<and> strip ''ll=ls -la'' = ''ll=ls -la''
   \<and> strip (format_alias_line ''ll=ls -la'') = format_alias_line ''ll=ls -la''"
  using format_alias_line_idempotent [of "''alias X='' @ [squote] @ ''y'' @ [squote]"]
    format_alias_line_idempotent [of "''ll=ls -la''"]
  by (simp add: startswith_def strip_def lstrip_def rstrip_def py_isspace_def)

subsection \<open>Evaluation of the model on concrete inputs\<close>

lemmas eval_defs =
  load_all_vars_def get_var_value_def var_path_def get_file_hash_def read_var_file_def
  stripped_lines_def readlines_def strip_def lstrip_def rstrip_def py_isspace_def
  startswith_def endswith_def is_file_def select_value_def random_choice_def
  store_entry_def CACHE_TTL_def empty_cache_def Let_def

subsection \<open>The authentication gate\<close>



subsection \<open>Loading the variables directory\<close>

lemma load_loop_skip:
  "\<not> considered entry \<Longrightarrow>
   load_loop md5 randbelow clock fs (entry # entries) vars_dict st
     = load_loop md5 randbelow clock fs entries vars_dict st"
  by (auto simp: considered_def)

lemma load_loop_step:
  "considered entry \<Longrightarrow>
   load_loop md5 randbelow clock fs (entry # entries) vars_dict st
     = (case get_var_value md5 (randbelow (fst entry)) (clock (fst entry)) fs (fst entry) st of
          (Inl e, st') \<Rightarrow> (Inl e, st')
        | (Inr None, st') \<Rightarrow> load_loop md5 randbelow clock fs entries vars_dict st'
        | (Inr (Some v), st') \<Rightarrow>
            load_loop md5 randbelow clock fs entries (AList.update (fst entry) v vars_dict) st')"
  by (auto simp: considered_def Let_def)





subsection \<open>The file watcher\<close>

text \<open>For a file name without a dot the stem is the name.\<close>

lemma path_stem_no_dot: "dot \<notin> set (path_name p) \<Longrightarrow> path_stem p = path_name p"
  by (simp add: path_stem_def rfind_def)

text \<open>
  What the handler does remove: the entry under the stem of the event's path, and the
  alias cache when the event is for the aliases file.
\<close>

lemma on_modified_invalidates:
  "\<not> is_directory ev \<Longrightarrow> startswith (src_path ev) vars_dir_path \<Longrightarrow>
     values_cache (on_modified vars_dir_path aliases_file_path ev st) (path_stem (src_path ev)) = None
     \<and> file_hashes (on_modified vars_dir_path aliases_file_path ev st) (path_stem (src_path ev)) = None"
  "\<not> is_directory ev \<Longrightarrow> \<not> startswith (src_path ev) vars_dir_path \<Longrightarrow>
   src_path ev = aliases_file_path \<Longrightarrow>
     aliases_cache (on_modified vars_dir_path aliases_file_path ev st) = None
     \<and> aliases_hash (on_modified vars_dir_path aliases_file_path ev st) = None"
  by (simp_all add: on_modified_def Let_def)

text \<open>
  C7 fails on the code. \<open>load_all_vars\<close> caches the file \<open>foo.txt\<close> under its name
  \<open>foo.txt\<close>; the handler derives the variable name with \<open>Path.stem\<close>, which is
  \<open>foo\<close>, and removes nothing: after the modification event the value list and the
  stored hash for \<open>foo.txt\<close> are still in the cache.
\<close>

theorem on_modified_keeps_dotted_name:
  "path_name ''/srv/vars/foo.txt'' = ''foo.txt''
   \<and> path_stem ''/srv/vars/foo.txt'' = ''foo''
   \<and> startswith ''/srv/vars/foo.txt'' ''/srv/vars''
   \<and> values_cache (snd (snd (load_all_vars (\<lambda>s. s) (\<lambda>_ _. 0) (\<lambda>_. 5) dotted_fs empty_cache)))
        ''foo.txt'' = Some [''v'']
   \<and> values_cache
        (on_modified ''/srv/vars'' ''/srv/aliases''
           \<lparr>is_directory = False, src_path = ''/srv/vars/foo.txt''\<rparr>
           (snd (snd (load_all_vars (\<lambda>s. s) (\<lambda>_ _. 0) (\<lambda>_. 5) dotted_fs empty_cache))))
        ''foo.txt'' = Some [''v'']
   \<and> file_hashes
        (on_modified ''/srv/vars'' ''/srv/aliases''
           \<lparr>is_directory = False, src_path = ''/srv/vars/foo.txt''\<rparr>
           (snd (snd (load_all_vars (\<lambda>s. s) (\<lambda>_ _. 0) (\<lambda>_. 5) dotted_fs empty_cache))))
        ''foo.txt'' = Some (Some (''v'' @ [LF]))"
  by (simp add: dotted_fs_def eval_defs on_modified_def path_stem_def path_name_def rfind_def)

subsection \<open>The cache of value lists\<close>

lemma example_cache_eq:
  "example_cache =
     \<lparr>values_cache = [''FOO'' \<mapsto> [''one''], ''BAR'' \<mapsto> [''x'', ''y'']],
      cache_timestamps = [''FOO'' \<mapsto> 5, ''BAR'' \<mapsto> 5],
      file_hashes = [''FOO'' \<mapsto> Some (''one'' @ [LF]),
                     ''BAR'' \<mapsto> Some (''x'' @ [LF] @ ''y'' @ [LF])],
      aliases_cache = None, aliases_hash = None\<rparr>"
  by (simp add: example_cache_def example_fs_def eval_defs)

text \<open>Both properties hold at start-up and are kept by every operation on the cache.\<close>

lemma empty_cache_timestamped: "timestamped empty_cache name"
  by (simp add: timestamped_def empty_cache_def)

lemma get_var_value_timestamped:
  "timestamped st name \<Longrightarrow>
   timestamped (snd (get_var_value md5 randbelow current_time fs var_name st)) name"
  by (auto simp: get_var_value_def timestamped_def store_entry_def Let_def split: option.splits)

lemma on_modified_timestamped:
  "timestamped st name \<Longrightarrow> timestamped (on_modified vars_dir_path aliases_file_path ev st) name"
  by (auto simp: on_modified_def timestamped_def Let_def)

lemma empty_cache_sound: "cache_sound md5 empty_cache"
  by (simp add: cache_sound_def empty_cache_def)

lemma read_var_file_Some:
  "read_var_file fs var_name = Some vals \<Longrightarrow>
   \<exists>content. var_path fs var_name = Some (RegFile content) \<and> vals = stripped_lines content
      \<and> vals \<noteq> []"
  by (auto simp: read_var_file_def Let_def split: option.splits node.splits if_splits)

lemma store_entry_sound:
  assumes "cache_sound md5 st" and "read_var_file fs var_name = Some vals"
  shows "cache_sound md5
           (store_entry var_name vals (get_file_hash md5 (var_path fs var_name)) current_time st)"
proof -
  from read_var_file_Some [OF assms(2)] obtain content where
    c: "var_path fs var_name = Some (RegFile content)" "vals = stripped_lines content" "vals \<noteq> []"
    by blast
  then have h: "get_file_hash md5 (var_path fs var_name) = Some (md5 content)"
    by (simp add: get_file_hash_def)
  let ?st = "store_entry var_name vals (get_file_hash md5 (var_path fs var_name)) current_time st"
  show ?thesis
    unfolding cache_sound_def
  proof (intro allI impI)
    fix name cached hh
    assume a: "values_cache ?st name = Some cached \<and> file_hashes ?st name = Some hh"
    show "\<exists>content. hh = Some (md5 content) \<and> cached = stripped_lines content \<and> cached \<noteq> []"
    proof (cases "name = var_name")
      case True
      with a h c show ?thesis by (auto simp: store_entry_def)
    next
      case False
      with a have "values_cache st name = Some cached \<and> file_hashes st name = Some hh"
        by (simp add: store_entry_def)
      with assms(1) show ?thesis unfolding cache_sound_def by blast
    qed
  qed
qed

lemma get_var_value_sound:
  assumes "cache_sound md5 st"
  shows "cache_sound md5 (snd (get_var_value md5 randbelow current_time fs var_name st))"
proof (cases "read_var_file fs var_name")
  case None
  with assms show ?thesis
    by (simp add: get_var_value_def Let_def split: option.splits)
next
  case (Some vals)
  from store_entry_sound [OF assms Some] Some assms show ?thesis
    by (simp add: get_var_value_def Let_def split: option.splits)
qed

lemma on_modified_sound:
  "cache_sound md5 st \<Longrightarrow> cache_sound md5 (on_modified vars_dir_path aliases_file_path ev st)"
  unfolding cache_sound_def on_modified_def Let_def
  by (auto split: if_splits)

text \<open>With a digest free of collisions, a sound cache is coherent with any file system.\<close>

lemma cache_sound_coherent:
  assumes "inj md5" and "cache_sound md5 st"
  shows "cache_coherent md5 fs var_name st"
  unfolding cache_coherent_def
proof
  assume a: "values_cache st var_name \<noteq> None
      \<and> file_hashes st var_name = Some (get_file_hash md5 (var_path fs var_name))"
  then obtain cached where v: "values_cache st var_name = Some cached" by auto
  with a assms(2) obtain content where
    c: "get_file_hash md5 (var_path fs var_name) = Some (md5 content)"
       "cached = stripped_lines content" "cached \<noteq> []"
    unfolding cache_sound_def by blast
  from c(1) obtain content' where
    c': "var_path fs var_name = Some (RegFile content')" "md5 content' = md5 content"
    by (auto simp: get_file_hash_def split: option.splits node.splits)
  with assms(1) have "content' = content" by (simp add: inj_eq)
  with c c' v show "values_cache st var_name = read_var_file fs var_name"
    by (simp add: read_var_file_def)
qed

text \<open>The loop over the directory and the alias loader keep both properties.\<close>

lemma load_loop_sound:
  "cache_sound md5 st \<Longrightarrow>
   cache_sound md5 (snd (load_loop md5 randbelow clock fs entries vars_dict st))"
proof (induction entries arbitrary: vars_dict st)
  case Nil
  then show ?case by simp
next
  case (Cons entry entries)
  show ?case
  proof (cases "considered entry")
    case False
    with Cons show ?thesis by (simp only: load_loop_skip [OF False])
  next
    case True
    let ?g = "get_var_value md5 (randbelow (fst entry)) (clock (fst entry)) fs (fst entry) st"
    have s: "cache_sound md5 (snd ?g)" using Cons.prems by (rule get_var_value_sound)
    obtain r st1 where g: "?g = (r, st1)" by (cases ?g)
    with s have s1: "cache_sound md5 st1" by simp
    show ?thesis
      using g s1 Cons.IH [OF s1]
      by (simp add: load_loop_step [OF True] del: load_loop.simps
            split: sum.splits option.splits)
  qed
qed

lemma load_loop_timestamped:
  "timestamped st name \<Longrightarrow>
   timestamped (snd (load_loop md5 randbelow clock fs entries vars_dict st)) name"
proof (induction entries arbitrary: vars_dict st)
  case Nil
  then show ?case by simp
next
  case (Cons entry entries)
  show ?case
  proof (cases "considered entry")
    case False
    with Cons show ?thesis by (simp only: load_loop_skip [OF False])
  next
    case True
    let ?g = "get_var_value md5 (randbelow (fst entry)) (clock (fst entry)) fs (fst entry) st"
    have s: "timestamped (snd ?g) name" using Cons.prems by (rule get_var_value_timestamped)
    obtain r st1 where g: "?g = (r, st1)" by (cases ?g)
    with s have s1: "timestamped st1 name" by simp
    show ?thesis
      using g s1 Cons.IH [OF s1]
      by (simp add: load_loop_step [OF True] del: load_loop.simps
            split: sum.splits option.splits)
  qed
qed

lemma load_aliases_values:
  "values_cache (snd (load_aliases md5 fs st)) = values_cache st
   \<and> file_hashes (snd (load_aliases md5 fs st)) = file_hashes st
   \<and> cache_timestamps (snd (load_aliases md5 fs st)) = cache_timestamps st"
  by (simp add: load_aliases_def read_aliases_def Let_def split: option.splits node.splits)

text \<open>A whole request keeps both properties.\<close>

lemma get_env_vars_invariants:
  assumes "cache_sound md5 st" and "timestamped st name"
  shows "cache_sound md5 (snd (snd (get_env_vars md5 secret_token randbelow clock token fs st)))
         \<and> timestamped (snd (snd (get_env_vars md5 secret_token randbelow clock token fs st))) name"
proof (cases "validate_token secret_token token")
  case False
  with assms show ?thesis by (simp add: get_env_vars_def)
next
  case True
  obtain r fs1 st1 where l: "load_all_vars md5 randbelow clock fs st = (r, fs1, st1)"
    by (cases "load_all_vars md5 randbelow clock fs st") auto
  have "cache_sound md5 st1 \<and> timestamped st1 name"
  proof (cases "vars_dir fs")
    case Missing
    with l assms show ?thesis by (auto simp: load_all_vars_def)
  next
    case NotADirectory
    with l assms show ?thesis by (auto simp: load_all_vars_def)
  next
    case (Dir entries)
    with l have "st1 = snd (load_loop md5 randbelow clock fs entries [] st)"
      by (auto simp: load_all_vars_def split: prod.splits)
    with assms show ?thesis by (simp add: load_loop_sound load_loop_timestamped)
  qed
  then have "cache_sound md5 (snd (load_aliases md5 fs1 st1))
      \<and> timestamped (snd (load_aliases md5 fs1 st1)) name"
    using load_aliases_values [of md5 fs1 st1]
    by (simp add: cache_sound_def timestamped_def)
  with True l \<open>cache_sound md5 st1 \<and> timestamped st1 name\<close> show ?thesis
    by (auto simp: get_env_vars_def split: sum.splits prod.splits)
qed

lemma select_value_mem:
  "select_value randbelow vals = Inr (Some v) \<Longrightarrow> v \<in> set vals"
  by (auto simp: select_value_def random_choice_def split: if_splits list.splits)

lemma select_value_no_error:
  assumes "vals \<noteq> []" and "randbelow (length vals) < length vals"
  shows "\<exists>v. select_value randbelow vals = Inr (Some v)"
  using assms by (cases vals) (auto simp: select_value_def random_choice_def)

text \<open>
  In a sound cache no value list is empty, so with draws in range the call never
  raises.
\<close>

lemma get_var_value_no_error:
  assumes "cache_sound md5 st" and "\<forall>n>0. randbelow n < n"
  shows "fst (get_var_value md5 randbelow current_time fs var_name st) \<noteq> Inl e"
proof -
  have sel: "select_value randbelow vals \<noteq> Inl e" if "vals \<noteq> []" for vals
    using select_value_no_error [of vals randbelow] that assms(2) by auto
  have cached: "vals \<noteq> []"
    if "values_cache st var_name = Some vals" "file_hashes st var_name = Some h" for vals h
    using assms(1) that unfolding cache_sound_def by blast
  have fresh: "vals \<noteq> []" if "read_var_file fs var_name = Some vals" for vals
    using read_var_file_Some [OF that] by blast
  show ?thesis
    using sel cached fresh
    by (auto simp: get_var_value_def Let_def split: option.splits)
qed

lemma get_var_value_unfold:
  assumes "timestamped st var_name"
  shows "get_var_value md5 randbelow current_time fs var_name st =
     (if entry_valid md5 current_time fs var_name st
      then (select_value randbelow (cached_values st var_name), st)
      else (case read_var_file fs var_name of
              None \<Rightarrow> (Inr None, st)
            | Some vals \<Rightarrow>
                (select_value randbelow vals,
                 store_entry var_name vals (get_file_hash md5 (var_path fs var_name))
                   current_time st)))"
  using assms
  by (auto simp: get_var_value_def entry_valid_def timestamped_def cached_values_def
        CACHE_TTL_def Let_def split: option.splits)



text \<open>
  C6, as stated, does not hold. \<open>FOO\<close> was cached at time 5 and its file has been
  deleted since. The call at time 10 finds the entry invalid, reads again, finds no
  file and returns \<open>None\<close>; the value list, the stored hash and the timestamp of
  \<open>FOO\<close> are still in the cache afterwards.
\<close>

theorem get_var_value_keeps_stale_entry:
  "\<not> entry_valid (\<lambda>s. s) 10 deleted_fs ''FOO'' example_cache
   \<and> var_path deleted_fs ''FOO'' = None
   \<and> fst (get_var_value (\<lambda>s. s) (\<lambda>_. 0) 10 deleted_fs ''FOO'' example_cache) = Inr None
   \<and> values_cache (snd (get_var_value (\<lambda>s. s) (\<lambda>_. 0) 10 deleted_fs ''FOO'' example_cache))
        ''FOO'' = Some [''one'']
   \<and> file_hashes (snd (get_var_value (\<lambda>s. s) (\<lambda>_. 0) 10 deleted_fs ''FOO'' example_cache))
        ''FOO'' = Some (Some (''one'' @ [LF]))
   \<and> cache_timestamps (snd (get_var_value (\<lambda>s. s) (\<lambda>_. 0) 10 deleted_fs ''FOO'' example_cache))
        ''FOO'' = Some 5"
  by (simp add: example_cache_eq deleted_fs_def example_fs_def entry_valid_def eval_defs)

lemma read_var_file_gone:
  "var_path fs var_name = None
   \<or> (\<exists>content. var_path fs var_name = Some (RegFile content) \<and> stripped_lines content = [])
   \<Longrightarrow> read_var_file fs var_name = None"
  by (auto simp: read_var_file_def)

text \<open>
  C6, amended. When \<open>get_var_value\<close> reads the file again (the cached entry is
  invalid or absent) and the file no longer exists or has no non-blank line, the call
  returns \<open>None\<close> and leaves the cache exactly as it was: an entry cached earlier for
  the name keeps its value list, stored hash and timestamp.
\<close>

theorem get_var_value_failed_reread:
  assumes "timestamped st var_name"
    and "\<not> entry_valid md5 current_time fs var_name st"
    and "var_path fs var_name = None
         \<or> (\<exists>content. var_path fs var_name = Some (RegFile content)
               \<and> stripped_lines content = [])"
  shows "get_var_value md5 randbelow current_time fs var_name st = (Inr None, st)"
proof -
  from assms(3) have "read_var_file fs var_name = None" by (rule read_var_file_gone)
  with assms(1,2) show ?thesis
    by (auto simp: get_var_value_def entry_valid_def timestamped_def CACHE_TTL_def Let_def
          split: option.splits)
qed

theorem get_var_value_failed_reread_witness:
  "timestamped example_cache ''FOO''
   \<and> \<not> entry_valid (\<lambda>s. s) 10 deleted_fs ''FOO'' example_cache
   \<and> var_path deleted_fs ''FOO'' = None
   \<and> get_var_value (\<lambda>s. s) (\<lambda>_. 0) 10 deleted_fs ''FOO'' example_cache
       = (Inr None, example_cache)"
proof -
  have a: "timestamped example_cache ''FOO''"
    by (simp add: timestamped_def example_cache_eq)
  have b: "\<not> entry_valid (\<lambda>s. s) 10 deleted_fs ''FOO'' example_cache"
    by (simp add: example_cache_eq deleted_fs_def example_fs_def entry_valid_def eval_defs)
  have c: "var_path deleted_fs ''FOO'' = None"
    by (simp add: deleted_fs_def example_fs_def var_path_def)
  from get_var_value_failed_reread [of example_cache "''FOO''" "\<lambda>s. s" 10 deleted_fs "\<lambda>_. 0"]
       a b c
  show ?thesis by blast
qed

subsection \<open>Value selection\<close>

text \<open>The cache after a call does not depend on the draw: no selection is remembered.\<close>

lemma get_var_value_state_draw:
  "snd (get_var_value md5 randbelow current_time fs var_name st)
     = snd (get_var_value md5 randbelow' current_time fs var_name st)"
  by (simp add: get_var_value_def Let_def split: option.splits)

text \<open>A call selects from its candidate list.\<close>

lemma get_var_value_of_candidates:
  assumes "timestamped st var_name"
  shows "fst (get_var_value md5 randbelow current_time fs var_name st)
           = (case candidates md5 current_time fs var_name st of
                None \<Rightarrow> Inr None | Some vals \<Rightarrow> select_value randbelow vals)"
proof (cases "entry_valid md5 current_time fs var_name st")
  case True
  then show ?thesis
    by (auto simp: get_var_value_unfold [OF assms] candidates_def cached_values_def
          entry_valid_def split: option.splits)
next
  case False
  then show ?thesis
    by (simp add: get_var_value_unfold [OF assms] candidates_def split: option.splits)
qed

lemma select_value_draw:
  "1 < length vals \<Longrightarrow> k < length vals \<Longrightarrow> select_value (\<lambda>_. k) vals = Inr (Some (vals ! k))"
  by (simp add: select_value_def random_choice_def)

lemma length_filter_nth:
  "length (filter (\<lambda>k. xs ! k = v) [0..<length xs]) = count_list xs v"
proof -
  have "filter (\<lambda>x. x = v) (map ((!) xs) [0..<length xs])
          = map ((!) xs) (filter (\<lambda>k. xs ! k = v) [0..<length xs])"
    by (simp add: filter_map comp_def)
  then have "length (filter (\<lambda>k. xs ! k = v) [0..<length xs]) = length (filter (\<lambda>x. x = v) xs)"
    by (metis length_map map_nth)
  also have "\<dots> = count_list xs v"
    by (induction xs) simp_all
  finally show ?thesis .
qed

lemma length_filter_product:
  "length (filter (\<lambda>p. A (fst p) \<and> B (snd p)) (List.product xs ys))
     = length (filter A xs) * length (filter B ys)"
proof (induction xs)
  case Nil
  then show ?case by simp
next
  case (Cons x xs)
  have "filter (\<lambda>p. A (fst p) \<and> B (snd p)) (map (Pair x) ys)
          = (if A x then map (Pair x) (filter B ys) else [])"
    by (induction ys) simp_all
  with Cons show ?case by simp
qed

lemma uniform_prob_selection:
  assumes "timestamped st var_name"
    and "candidates md5 current_time fs var_name st = Some vals" and "1 < length vals"
  shows "uniform_prob (length vals)
           (\<lambda>k. fst (get_var_value md5 (\<lambda>_. k) current_time fs var_name st) = Inr (Some v))
         = real (count_list vals v) / real (length vals)"
proof -
  have "filter (\<lambda>k. fst (get_var_value md5 (\<lambda>_. k) current_time fs var_name st) = Inr (Some v))
          [0..<length vals]
        = filter (\<lambda>k. vals ! k = v) [0..<length vals]"
    by (rule filter_cong)
       (simp_all add: get_var_value_of_candidates [OF assms(1)] assms(2) select_value_draw [OF assms(3)])
  then show ?thesis by (simp add: uniform_prob_def length_filter_nth)
qed

lemma uniform_prob2_selection:
  assumes ts: "timestamped st var_name"
    and c1: "candidates md5 t1 fs1 var_name st = Some vals1" and l1: "1 < length vals1"
    and c2: "candidates md5 t2 fs2 var_name
               (snd (get_var_value md5 randbelow t1 fs1 var_name st)) = Some vals2"
    and l2: "1 < length vals2"
  shows "uniform_prob2 (length vals1) (length vals2)
           (\<lambda>k l. fst (get_var_value md5 (\<lambda>_. k) t1 fs1 var_name st) = Inr (Some v1)
                 \<and> fst (get_var_value md5 (\<lambda>_. l) t2 fs2 var_name
                          (snd (get_var_value md5 (\<lambda>_. k) t1 fs1 var_name st))) = Inr (Some v2))
         = (real (count_list vals1 v1) / real (length vals1))
           * (real (count_list vals2 v2) / real (length vals2))"
proof -
  let ?st1 = "snd (get_var_value md5 randbelow t1 fs1 var_name st)"
  have st1: "snd (get_var_value md5 (\<lambda>_. k) t1 fs1 var_name st) = ?st1" for k
    by (rule get_var_value_state_draw)
  have ts1: "timestamped ?st1 var_name" using ts by (rule get_var_value_timestamped)
  have "filter (\<lambda>p. fst (get_var_value md5 (\<lambda>_. fst p) t1 fs1 var_name st) = Inr (Some v1)
                 \<and> fst (get_var_value md5 (\<lambda>_. snd p) t2 fs2 var_name
                          (snd (get_var_value md5 (\<lambda>_. fst p) t1 fs1 var_name st))) = Inr (Some v2))
          (List.product [0..<length vals1] [0..<length vals2])
        = filter (\<lambda>p. vals1 ! fst p = v1 \<and> vals2 ! snd p = v2)
            (List.product [0..<length vals1] [0..<length vals2])"
    by (rule filter_cong)
       (auto simp: st1 get_var_value_of_candidates [OF ts] get_var_value_of_candidates [OF ts1]
          c1 c2 select_value_draw [OF l1] select_value_draw [OF l2])
  moreover have "length (filter (\<lambda>p. vals1 ! fst p = v1 \<and> vals2 ! snd p = v2)
            (List.product [0..<length vals1] [0..<length vals2]))
        = count_list vals1 v1 * count_list vals2 v2"
    using length_filter_product
            [of "\<lambda>k. vals1 ! k = v1" "\<lambda>l. vals2 ! l = v2" "[0..<length vals1]" "[0..<length vals2]"]
    by (simp add: length_filter_nth)
  ultimately show ?thesis
    by (simp add: uniform_prob2_def)
qed

subsubsection \<open>Two texts with one digest\<close>

lemma md5_collision_a: "md5_hexdigest collision_a = ''faad49866e9498fc1719f5289e7a0269''"
  by code_simp

lemma md5_collision_b: "md5_hexdigest collision_b = ''faad49866e9498fc1719f5289e7a0269''"
  by code_simp

lemma stripped_lines_collision:
  "stripped_lines collision_a = [collision_a]" "stripped_lines collision_b = [collision_b]"
  "filter (\<lambda>l. strip l \<noteq> []) (readlines collision_b) = [collision_b]"
  "strip collision_b = collision_b"
  by (simp_all add: collision_a_def collision_b_def stripped_lines_def readlines_def strip_def
        lstrip_def rstrip_def py_isspace_def)

lemma collision_cache_eq:
  "collision_cache =
     \<lparr>values_cache = [''FOO'' \<mapsto> [collision_a]],
      cache_timestamps = [''FOO'' \<mapsto> 5],
      file_hashes = [''FOO'' \<mapsto> Some ''faad49866e9498fc1719f5289e7a0269''],
      aliases_cache = None, aliases_hash = None\<rparr>"
  by (simp add: collision_cache_def collision_fs_def load_all_vars_def get_var_value_def
        var_path_def get_file_hash_def read_var_file_def is_file_def startswith_def
        select_value_def store_entry_def empty_cache_def Let_def
        md5_collision_a stripped_lines_collision)

text \<open>
  C8, as stated, does not hold. The file \<open>FOO\<close> was cached at time 5 with its one
  line; half a second later the file holds one other line with the same MD5 digest.
  The stored hash equals the hash of the live file and the entry is younger than the
  TTL, so \<open>get_var_value\<close> returns the cached line, which is not the line of the
  file.
\<close>

theorem get_var_value_returns_colliding_entry:
  "var_path (collision_fs collision_b) ''FOO'' = Some (RegFile collision_b)
   \<and> filter (\<lambda>l. strip l \<noteq> []) (readlines collision_b) = [collision_b]
   \<and> strip collision_b = collision_b
   \<and> collision_a \<noteq> collision_b
   \<and> fst (get_var_value md5_hexdigest (\<lambda>_. 0) (11 / 2) (collision_fs collision_b) ''FOO''
            collision_cache) = Inr (Some collision_a)
   \<and> fst (get_var_value md5_hexdigest (\<lambda>_. 0) (11 / 2) (collision_fs collision_b) ''FOO''
            collision_cache) \<noteq> Inr (Some (strip collision_b))"
proof -
  have ne: "collision_a \<noteq> collision_b" by (simp add: collision_a_def collision_b_def)
  have g: "fst (get_var_value md5_hexdigest (\<lambda>_. 0) (11 / 2) (collision_fs collision_b) ''FOO''
            collision_cache) = Inr (Some collision_a)"
    by (simp add: collision_cache_eq collision_fs_def get_var_value_def var_path_def
          get_file_hash_def select_value_def CACHE_TTL_def Let_def md5_collision_b)
  have p: "var_path (collision_fs collision_b) ''FOO'' = Some (RegFile collision_b)"
    by (simp add: collision_fs_def var_path_def)
  from ne g p stripped_lines_collision(3,4) show ?thesis by simp
qed

text \<open>
  C8, amended. For every variable whose file contains exactly one non-blank line,
  \<open>get_var_value\<close> returns that line trimmed, whatever the random generator does,
  provided that a valid cached entry, if there is one, holds the lines of the file's
  present text (a valid entry is returned as it is, also when it was parsed from
  another text with the same digest). For a candidate list with more than one entry,
  each call returns the entry at the index \<open>random.choice\<close> draws, and every value
  a call returns is an element of the candidate list. With the draw uniform on the
  indices, a call returns a value with probability (occurrences of the value) /
  (length of the list), so each entry is selected with the same probability; and the
  probability that two successive calls return two given values is the product of
  the two probabilities, the cache after a call being the same for every draw: the
  calls select independently and nothing is carried from one call to the next.
\<close>

theorem get_var_value_selection:
  assumes "timestamped st var_name"
  shows
   "((entry_valid md5 current_time fs var_name st \<longrightarrow>
        values_cache st var_name = read_var_file fs var_name)
       \<and> var_path fs var_name = Some (RegFile content)
       \<and> filter (\<lambda>l. strip l \<noteq> []) (readlines content) = [line] \<longrightarrow>
       fst (get_var_value md5 randbelow current_time fs var_name st) = Inr (Some (strip line)))
    \<and> (candidates md5 current_time fs var_name st = Some vals \<and> 1 < length vals
         \<and> randbelow (length vals) < length vals \<longrightarrow>
         fst (get_var_value md5 randbelow current_time fs var_name st)
           = Inr (Some (vals ! randbelow (length vals))))
    \<and> (candidates md5 current_time fs var_name st = Some vals
         \<and> fst (get_var_value md5 randbelow current_time fs var_name st) = Inr (Some w) \<longrightarrow>
         w \<in> set vals)
    \<and> (candidates md5 current_time fs var_name st = Some vals \<and> 1 < length vals \<longrightarrow>
         uniform_prob (length vals)
           (\<lambda>k. fst (get_var_value md5 (\<lambda>_. k) current_time fs var_name st) = Inr (Some v))
         = real (count_list vals v) / real (length vals))
    \<and> (candidates md5 current_time fs var_name st = Some vals \<and> 1 < length vals
         \<and> candidates md5 current_time' fs' var_name
              (snd (get_var_value md5 randbelow current_time fs var_name st)) = Some vals'
         \<and> 1 < length vals' \<longrightarrow>
         uniform_prob2 (length vals) (length vals')
           (\<lambda>k l. fst (get_var_value md5 (\<lambda>_. k) current_time fs var_name st) = Inr (Some v)
                 \<and> fst (get_var_value md5 (\<lambda>_. l) current_time' fs' var_name
                          (snd (get_var_value md5 (\<lambda>_. k) current_time fs var_name st)))
                     = Inr (Some v'))
         = (real (count_list vals v) / real (length vals))
           * (real (count_list vals' v') / real (length vals')))
    \<and> snd (get_var_value md5 randbelow current_time fs var_name st)
         = snd (get_var_value md5 randbelow' current_time fs var_name st)"
proof -
  note fstv = get_var_value_of_candidates [OF assms, of md5 randbelow current_time fs]
  show ?thesis
  proof (intro conjI impI)
    assume a: "(entry_valid md5 current_time fs var_name st \<longrightarrow>
        values_cache st var_name = read_var_file fs var_name)
       \<and> var_path fs var_name = Some (RegFile content)
       \<and> filter (\<lambda>l. strip l \<noteq> []) (readlines content) = [line]"
    then have r: "read_var_file fs var_name = Some [strip line]"
      by (simp add: read_var_file_def stripped_lines_def)
    from a have "candidates md5 current_time fs var_name st = read_var_file fs var_name"
      by (simp add: candidates_def)
    with fstv r show "fst (get_var_value md5 randbelow current_time fs var_name st)
        = Inr (Some (strip line))"
      by (simp add: select_value_def)
  next
    assume "candidates md5 current_time fs var_name st = Some vals \<and> 1 < length vals
         \<and> randbelow (length vals) < length vals"
    with fstv show "fst (get_var_value md5 randbelow current_time fs var_name st)
           = Inr (Some (vals ! randbelow (length vals)))"
      by (simp add: select_value_def random_choice_def)
  next
    assume "candidates md5 current_time fs var_name st = Some vals
         \<and> fst (get_var_value md5 randbelow current_time fs var_name st) = Inr (Some w)"
    with fstv have "select_value randbelow vals = Inr (Some w)" by simp
    then show "w \<in> set vals" by (rule select_value_mem)
  next
    assume "candidates md5 current_time fs var_name st = Some vals \<and> 1 < length vals"
    then show "uniform_prob (length vals)
           (\<lambda>k. fst (get_var_value md5 (\<lambda>_. k) current_time fs var_name st) = Inr (Some v))
         = real (count_list vals v) / real (length vals)"
      using uniform_prob_selection [OF assms] by blast
  next
    assume "candidates md5 current_time fs var_name st = Some vals \<and> 1 < length vals
         \<and> candidates md5 current_time' fs' var_name
              (snd (get_var_value md5 randbelow current_time fs var_name st)) = Some vals'
         \<and> 1 < length vals'"
    then show "uniform_prob2 (length vals) (length vals')
           (\<lambda>k l. fst (get_var_value md5 (\<lambda>_. k) current_time fs var_name st) = Inr (Some v)
                 \<and> fst (get_var_value md5 (\<lambda>_. l) current_time' fs' var_name
                          (snd (get_var_value md5 (\<lambda>_. k) current_time fs var_name st)))
                     = Inr (Some v'))
         = (real (count_list vals v) / real (length vals))
           * (real (count_list vals' v') / real (length vals'))"
      using uniform_prob2_selection [OF assms] by blast
  next
    show "snd (get_var_value md5 randbelow current_time fs var_name st)
         = snd (get_var_value md5 randbelow' current_time fs var_name st)"
      by (rule get_var_value_state_draw)
  qed
qed

text \<open>
  The padded file gives \<open>hello world\<close> for any draw. \<open>BAR\<close>, read through the cache
  filled at time 5, gives \<open>y\<close> for the draw 1; a call returns \<open>x\<close> with probability
  1/2, and a call at time 5.5 followed by a call at time 6 returns \<open>x\<close> and then
  \<open>y\<close> with probability 1/4.
\<close>

theorem get_var_value_selection_witness:
  "timestamped empty_cache ''GREETING''
   \<and> \<not> entry_valid (\<lambda>s. s) 5 padded_fs ''GREETING'' empty_cache
   \<and> var_path padded_fs ''GREETING'' = Some (RegFile (''  hello world '' @ [CR, LF] @ ''   '' @ [LF]))
   \<and> filter (\<lambda>l. strip l \<noteq> []) (readlines (''  hello world '' @ [CR, LF] @ ''   '' @ [LF]))
       = [''  hello world '' @ [LF]]
   \<and> fst (get_var_value (\<lambda>s. s) (\<lambda>_. 7) 5 padded_fs ''GREETING'' empty_cache)
       = Inr (Some ''hello world'')
   \<and> timestamped example_cache ''BAR''
   \<and> candidates (\<lambda>s. s) (11 / 2) example_fs ''BAR'' example_cache = Some [''x'', ''y'']
   \<and> candidates (\<lambda>s. s) 6 example_fs ''BAR''
        (snd (get_var_value (\<lambda>s. s) (\<lambda>_. 1) (11 / 2) example_fs ''BAR'' example_cache))
       = Some [''x'', ''y'']
   \<and> fst (get_var_value (\<lambda>s. s) (\<lambda>_. 1) (11 / 2) example_fs ''BAR'' example_cache)
       = Inr (Some ''y'')
   \<and> uniform_prob 2
        (\<lambda>k. fst (get_var_value (\<lambda>s. s) (\<lambda>_. k) (11 / 2) example_fs ''BAR'' example_cache)
               = Inr (Some ''x'')) = 1 / 2
   \<and> uniform_prob2 2 2
        (\<lambda>k l. fst (get_var_value (\<lambda>s. s) (\<lambda>_. k) (11 / 2) example_fs ''BAR'' example_cache)
                  = Inr (Some ''x'')
              \<and> fst (get_var_value (\<lambda>s. s) (\<lambda>_. l) 6 example_fs ''BAR''
                       (snd (get_var_value (\<lambda>s. s) (\<lambda>_. k) (11 / 2) example_fs ''BAR''
                               example_cache)))
                  = Inr (Some ''y'')) = 1 / 4"
proof -
  let ?text = "''  hello world '' @ [CR, LF] @ ''   '' @ [LF]"
  have a: "timestamped empty_cache ''GREETING''"
    by (simp add: timestamped_def empty_cache_def)
  have b: "\<not> entry_valid (\<lambda>s. s) 5 padded_fs ''GREETING'' empty_cache"
    by (simp add: entry_valid_def empty_cache_def)
  have c: "var_path padded_fs ''GREETING'' = Some (RegFile ?text)"
    by (simp add: padded_fs_def var_path_def)
  have d: "filter (\<lambda>l. strip l \<noteq> []) (readlines ?text) = [''  hello world '' @ [LF]]"
    by (simp add: readlines_def strip_def lstrip_def rstrip_def py_isspace_def)
  have s: "strip (''  hello world '' @ [LF]) = ''hello world''"
    by (simp add: strip_def lstrip_def rstrip_def py_isspace_def)
  from get_var_value_selection
         [of empty_cache "''GREETING''" "\<lambda>s. s", where current_time = 5 and fs = padded_fs and content = ?text
            and line = "''  hello world '' @ [LF]" and randbelow = "\<lambda>_. 7", OF a]
       b c d s
  have e: "fst (get_var_value (\<lambda>s. s) (\<lambda>_. 7) 5 padded_fs ''GREETING'' empty_cache)
             = Inr (Some ''hello world'')"
    by simp
  have f: "timestamped example_cache ''BAR''"
    by (simp add: timestamped_def example_cache_eq)
  have g: "candidates (\<lambda>s. s) (11 / 2) example_fs ''BAR'' example_cache = Some [''x'', ''y'']"
    by (simp add: candidates_def entry_valid_def example_cache_eq example_fs_def eval_defs)
  have st: "snd (get_var_value (\<lambda>s. s) (\<lambda>_. 1) (11 / 2) example_fs ''BAR'' example_cache)
              = example_cache"
    by (simp add: example_cache_eq example_fs_def eval_defs)
  have h: "candidates (\<lambda>s. s) 6 example_fs ''BAR''
        (snd (get_var_value (\<lambda>s. s) (\<lambda>_. 1) (11 / 2) example_fs ''BAR'' example_cache))
       = Some [''x'', ''y'']"
    unfolding st
    by (simp add: candidates_def entry_valid_def example_cache_eq example_fs_def eval_defs)
  have len: "length [''x'', ''y''] = 2" by simp
  note sel = get_var_value_selection
         [of example_cache "''BAR''" "\<lambda>s. s", where current_time = "11 / 2" and fs = example_fs and randbelow = "\<lambda>_. 1"
            and vals = "[''x'', ''y'']" and v = "''x''" and current_time' = 6
            and fs' = example_fs and vals' = "[''x'', ''y'']" and v' = "''y''", OF f,
          unfolded len]
  from sel g
  have i: "fst (get_var_value (\<lambda>s. s) (\<lambda>_. 1) (11 / 2) example_fs ''BAR'' example_cache)
       = Inr (Some ''y'')"
    by simp
  from sel g
  have j: "uniform_prob 2
        (\<lambda>k. fst (get_var_value (\<lambda>s. s) (\<lambda>_. k) (11 / 2) example_fs ''BAR'' example_cache)
               = Inr (Some ''x'')) = 1 / 2"
    by simp
  from sel g h
  have k: "uniform_prob2 2 2
        (\<lambda>k l. fst (get_var_value (\<lambda>s. s) (\<lambda>_. k) (11 / 2) example_fs ''BAR'' example_cache)
                  = Inr (Some ''x'')
              \<and> fst (get_var_value (\<lambda>s. s) (\<lambda>_. l) 6 example_fs ''BAR''
                       (snd (get_var_value (\<lambda>s. s) (\<lambda>_. k) (11 / 2) example_fs ''BAR''
                               example_cache)))
                  = Inr (Some ''y'')) = 1 / 4"
    by simp
  from a b c d e f g h i j k show ?thesis by blast
qed

subsection \<open>The response body\<close>

lemma sorted_map_fst:
  fixes xs :: "('a::linorder \<times> 'b::linorder) list"
  shows "sorted xs \<Longrightarrow> sorted (map fst xs)"
  by (induction xs) (auto simp: less_eq_prod_def)

lemma filter_same_key:
  "distinct (map fst zs) \<Longrightarrow> k \<in> set zs \<Longrightarrow> filter (\<lambda>x. fst k = fst x) zs = [k]"
proof (induction zs)
  case Nil
  then show ?case by simp
next
  case (Cons z zs)
  show ?case
  proof (cases "k = z")
    case True
    have "filter (\<lambda>x. fst z = fst x) zs = []"
      using Cons.prems(1) by (auto simp: filter_empty_conv)
    with True show ?thesis by simp
  next
    case False
    with Cons.prems have k: "k \<in> set zs" by simp
    from Cons.prems(1) have "fst z \<notin> fst ` set zs" by simp
    with k have "fst k \<noteq> fst z" by (metis imageI)
    with Cons.IH k Cons.prems(1) show ?thesis by simp
  qed
qed

text \<open>
  \<open>sorted(vars_dict.items())\<close> orders the pairs; the keys of a dict are distinct, so
  this is the order by variable name.
\<close>

lemma sort_by_name:
  fixes xs :: "('a::linorder \<times> 'b::linorder) list"
  assumes "distinct (map fst xs)"
  shows "sort xs = sort_key fst xs"
proof -
  have d: "distinct (map fst (sort xs))"
  proof -
    have "mset (map fst (sort xs)) = mset (map fst xs)" by simp
    then show ?thesis using assms by (metis mset_eq_imp_distinct_iff)
  qed
  have "sort_key fst xs = sort xs"
  proof (rule properties_for_sort_key)
    show "mset (sort xs) = mset xs" by simp
    show "sorted (map fst (sort xs))" by (rule sorted_map_fst) simp
    fix k
    assume k: "k \<in> set (sort xs)"
    then have "k \<in> set xs" by simp
    with assms have "filter (\<lambda>x. fst k = fst x) xs = [k]" by (rule filter_same_key)
    moreover from d k have "filter (\<lambda>x. fst k = fst x) (sort xs) = [k]"
      by (rule filter_same_key)
    ultimately show "filter (\<lambda>x. fst k = fst x) (sort xs) = filter (\<lambda>x. fst k = fst x) xs"
      by simp
  qed
  then show ?thesis by simp
qed

lemma load_loop_distinct:
  "load_loop md5 randbelow clock fs entries vars_dict st = (Inr d, st') \<Longrightarrow>
   distinct (map fst vars_dict) \<Longrightarrow> distinct (map fst d)"
proof (induction entries arbitrary: vars_dict st)
  case Nil
  then show ?case by simp
next
  case (Cons entry entries)
  show ?case
  proof (cases "considered entry")
    case False
    with Cons.prems have "load_loop md5 randbelow clock fs entries vars_dict st = (Inr d, st')"
      by (simp only: load_loop_skip [OF False])
    from Cons.IH [OF this Cons.prems(2)] show ?thesis .
  next
    case True
    obtain r st1 where g:
      "get_var_value md5 (randbelow (fst entry)) (clock (fst entry)) fs (fst entry) st = (r, st1)"
      by (cases "get_var_value md5 (randbelow (fst entry)) (clock (fst entry)) fs (fst entry) st")
    show ?thesis
    proof (cases r)
      case (Inl e)
      with Cons.prems True g show ?thesis
        by (simp add: load_loop_step [OF True] del: load_loop.simps)
    next
      case (Inr ov)
      show ?thesis
      proof (cases ov)
        case None
        with Cons.prems True g Inr
        have "load_loop md5 randbelow clock fs entries vars_dict st1 = (Inr d, st')"
          by (simp add: load_loop_step [OF True] del: load_loop.simps)
        from Cons.IH [OF this Cons.prems(2)] show ?thesis .
      next
        case (Some v)
        with Cons.prems True g Inr
        have "load_loop md5 randbelow clock fs entries (AList.update (fst entry) v vars_dict) st1
                = (Inr d, st')"
          by (simp add: load_loop_step [OF True] del: load_loop.simps)
        from Cons.IH [OF this] Cons.prems(2) show ?thesis by (simp add: distinct_update)
      qed
    qed
  qed
qed

lemma load_all_vars_distinct:
  assumes "load_all_vars md5 randbelow clock fs st = (Inr vars_dict, fs1, st1)"
  shows "distinct (map fst vars_dict)"
proof (cases "vars_dir fs")
  case Missing
  with assms show ?thesis by (auto simp: load_all_vars_def)
next
  case NotADirectory
  with assms show ?thesis by (auto simp: load_all_vars_def)
next
  case (Dir entries)
  with assms obtain st' where
    "load_loop md5 randbelow clock fs entries [] st = (Inr vars_dict, st')"
    by (auto simp: load_all_vars_def split: prod.splits)
  from load_loop_distinct [OF this] show ?thesis by simp
qed

text \<open>The newline-join and the escaping, in terms of the list functions of HOL.\<close>

lemma join_single_sep:
  "join [c] xs = butlast (concat (map (\<lambda>l. l @ [c]) xs))"
proof (induction "[c]" xs rule: join.induct)
  case 1
  then show ?case by simp
next
  case (2 x)
  then show ?case by (simp add: butlast_append)
next
  case (3 x y ys)
  then show ?case by (simp add: butlast_append)
qed

lemma escape_value_chars:
  "escape_value v
     = concat (map (\<lambda>c. if c = backslash \<or> c = dquote \<or> c = dollar then [backslash, c] else [c]) v)"
proof -
  have "escape_value v = concat (map (\<lambda>c. concat (map (\<lambda>c. if c = dollar then [backslash, dollar] else [c])
            (concat (map (\<lambda>c. if c = dquote then [backslash, dquote] else [c])
              (if c = backslash then [backslash, backslash] else [c]))))) v)"
    by (simp add: escape_value_def replace_single concat_map_concat_map)
  also have "\<dots> = concat (map (\<lambda>c. if c = backslash \<or> c = dquote \<or> c = dollar
                                    then [backslash, c] else [c]) v)"
    by (rule arg_cong [where f = concat], rule map_cong) auto
  finally show ?thesis .
qed

text \<open>
  C2. For a request with the valid token, with \<open>vars_dict\<close> the mapping
  \<open>load_all_vars\<close> resolved and \<open>aliases\<close> the list \<open>load_aliases\<close> formatted, the
  body consists of one line \<open>export NAME="VALUE"\<close> per variable (the value escaped),
  the export lines in the order of the variable names, followed by the alias lines in
  the order the formatter produced them; every line but the last is followed by one
  newline character, and nothing else is in the body.
\<close>

theorem get_env_vars_body:
  assumes "load_all_vars md5 randbelow clock fs st = (Inr vars_dict, fs1, st1)"
    and "load_aliases md5 fs1 st1 = (aliases, st2)"
  shows "get_env_vars md5 secret_token randbelow clock secret_token fs st
           = (Inr \<lparr>status = 200, mimetype = ''text/plain'',
                   body = butlast (concat (map (\<lambda>l. l @ [LF])
                     (map (\<lambda>kv. ''export '' @ fst kv @ [equals, dquote]
                                @ concat (map (\<lambda>c. if c = backslash \<or> c = dquote \<or> c = dollar
                                                    then [backslash, c] else [c]) (snd kv))
                                @ [dquote])
                          (sort_key fst vars_dict)
                      @ aliases)))\<rparr>,
              fs1, st2)
         \<and> sorted (map fst (sort_key fst vars_dict))
         \<and> mset (sort_key fst vars_dict) = mset vars_dict
         \<and> distinct (map fst vars_dict)"
proof -
  have d: "distinct (map fst vars_dict)" using assms(1) by (rule load_all_vars_distinct)
  then have s: "sort vars_dict = sort_key fst vars_dict" by (rule sort_by_name)
  have e: "export_command = (\<lambda>kv. ''export '' @ fst kv @ [equals, dquote]
                                @ concat (map (\<lambda>c. if c = backslash \<or> c = dquote \<or> c = dollar
                                                    then [backslash, c] else [c]) (snd kv))
                                @ [dquote])"
    by (rule ext) (simp add: export_command_def escape_value_chars)
  have "response_text vars_dict aliases
          = butlast (concat (map (\<lambda>l. l @ [LF])
              (map export_command (sort_key fst vars_dict) @ aliases)))"
    by (simp only: response_text_def Let_def s join_single_sep)
  with assms e have "get_env_vars md5 secret_token randbelow clock secret_token fs st
           = (Inr \<lparr>status = 200, mimetype = ''text/plain'',
                   body = butlast (concat (map (\<lambda>l. l @ [LF])
                     (map (\<lambda>kv. ''export '' @ fst kv @ [equals, dquote]
                                @ concat (map (\<lambda>c. if c = backslash \<or> c = dquote \<or> c = dollar
                                                    then [backslash, c] else [c]) (snd kv))
                                @ [dquote])
                          (sort_key fst vars_dict)
                      @ aliases)))\<rparr>,
              fs1, st2)"
    by (simp add: get_env_vars_def validate_token_def)
  with d show ?thesis by simp
qed

text \<open>
  The end-to-end example: \<open>FOO\<close> with the line \<open>one\<close>, \<open>BAR\<close> with the lines \<open>x\<close>
  and \<open>y\<close>, the alias line \<open>ll=ls -la\<close>. The body is \<open>export BAR="x"\<close> (or
  \<open>"y"\<close>, as the generator draws), \<open>export FOO="one"\<close>, \<open>alias ll='ls -la'\<close>,
  separated by newlines.
\<close>

theorem get_env_vars_body_witness:
  "load_all_vars (\<lambda>s. s) (\<lambda>_ _. 0) (\<lambda>_. 5) example_fs empty_cache
     = (Inr [(''FOO'', ''one''), (''BAR'', ''x'')], example_fs, example_cache)
   \<and> load_all_vars (\<lambda>s. s) (\<lambda>_ _. 1) (\<lambda>_. 5) example_fs empty_cache
     = (Inr [(''FOO'', ''one''), (''BAR'', ''y'')], example_fs, example_cache)
   \<and> fst (load_aliases (\<lambda>s. s) example_fs example_cache)
       = [''alias ll='' @ [squote] @ ''ls -la'' @ [squote]]
   \<and> fst (get_env_vars (\<lambda>s. s) ''s3cret'' (\<lambda>_ _. 0) (\<lambda>_. 5) ''s3cret'' example_fs empty_cache)
       = Inr \<lparr>status = 200, mimetype = ''text/plain'',
              body = ''export BAR='' @ [dquote] @ ''x'' @ [dquote, LF]
                     @ ''export FOO='' @ [dquote] @ ''one'' @ [dquote, LF]
                     @ ''alias ll='' @ [squote] @ ''ls -la'' @ [squote]\<rparr>
   \<and> fst (get_env_vars (\<lambda>s. s) ''s3cret'' (\<lambda>_ _. 1) (\<lambda>_. 5) ''s3cret'' example_fs empty_cache)
       = Inr \<lparr>status = 200, mimetype = ''text/plain'',
              body = ''export BAR='' @ [dquote] @ ''y'' @ [dquote, LF]
                     @ ''export FOO='' @ [dquote] @ ''one'' @ [dquote, LF]
                     @ ''alias ll='' @ [squote] @ ''ls -la'' @ [squote]\<rparr>"
proof -
  have l0: "load_all_vars (\<lambda>s. s) (\<lambda>_ _. 0) (\<lambda>_. 5) example_fs empty_cache
     = (Inr [(''FOO'', ''one''), (''BAR'', ''x'')], example_fs, example_cache)"
    unfolding example_cache_eq by (simp add: example_fs_def eval_defs)
  have l1: "load_all_vars (\<lambda>s. s) (\<lambda>_ _. 1) (\<lambda>_. 5) example_fs empty_cache
     = (Inr [(''FOO'', ''one''), (''BAR'', ''y'')], example_fs, example_cache)"
    unfolding example_cache_eq by (simp add: example_fs_def eval_defs)
  obtain st2 where a: "load_aliases (\<lambda>s. s) example_fs example_cache
       = ([''alias ll='' @ [squote] @ ''ls -la'' @ [squote]], st2)"
    by (simp add: load_aliases_def read_aliases_def format_alias_line_def split_first_def
          example_fs_def example_cache_eq eval_defs)
  from get_env_vars_body [OF l0 a, of "''s3cret''"]
  have b0: "fst (get_env_vars (\<lambda>s. s) ''s3cret'' (\<lambda>_ _. 0) (\<lambda>_. 5) ''s3cret'' example_fs empty_cache)
       = Inr \<lparr>status = 200, mimetype = ''text/plain'',
              body = ''export BAR='' @ [dquote] @ ''x'' @ [dquote, LF]
                     @ ''export FOO='' @ [dquote] @ ''one'' @ [dquote, LF]
                     @ ''alias ll='' @ [squote] @ ''ls -la'' @ [squote]\<rparr>"
    by simp
  from get_env_vars_body [OF l1 a, of "''s3cret''"]
  have b1: "fst (get_env_vars (\<lambda>s. s) ''s3cret'' (\<lambda>_ _. 1) (\<lambda>_. 5) ''s3cret'' example_fs empty_cache)
       = Inr \<lparr>status = 200, mimetype = ''text/plain'',
              body = ''export BAR='' @ [dquote] @ ''y'' @ [dquote, LF]
                     @ ''export FOO='' @ [dquote] @ ''one'' @ [dquote, LF]
                     @ ''alias ll='' @ [squote] @ ''ls -la'' @ [squote]\<rparr>"
    by simp
  from l0 l1 a b0 b1 show ?thesis by simp
qed

end
